theory Spec2Isabelle
  imports Complex_Main "HOL-Library.Sublist"
begin

section \<open>JavaScript values\<close>

text \<open>
  The values a form field can hold. The hook never computes with numbers, so the type of
  numbers is left open (\<open>'n\<close>): it stands for whatever the caller's conversion produces
  (\<open>Number(value)\<close> in \<open>handleChange\<close>, \<open>parseInt(value)\<close> in the broker form).
  \<open>JInherited k\<close> is the member \<open>k\<close> that every plain object inherits from
  \<open>Object.prototype\<close>, which is what reading a key the object does not own gives when
  the key is one of those names.
\<close>

datatype 'n jsvalue = Undefined | Null | JBool bool | JNum 'n | JStr string | JInherited string

text \<open>
  The names a plain object (an object literal, a spread copy) inherits: \<open>obj[k]\<close> for
  such a \<open>k\<close> is a function, or for \<open>__proto__\<close> the prototype object, and in either
  case truthy, also when \<open>obj\<close> has no key \<open>k\<close> of its own.
\<close>

definition objectPrototypeNames :: "string list" where
  "objectPrototypeNames =
     [''constructor'', ''toString'', ''toLocaleString'', ''valueOf'', ''hasOwnProperty'',
      ''isPrototypeOf'', ''propertyIsEnumerable'', ''__proto__'', ''__defineGetter__'',
      ''__defineSetter__'', ''__lookupGetter__'', ''__lookupSetter__'']"

definition inheritedName :: "string \<Rightarrow> bool" where
  "inheritedName k = (k \<in> set objectPrototypeNames)"

text \<open>
  Truthiness of an optional string (\<open>string | undefined\<close>), as in \<open>if (prev[field])\<close>
  and \<open>result.error\<close>: undefined and the empty string are falsy.
\<close>

definition truthy :: "string option \<Rightarrow> bool" where
  "truthy x = (case x of None \<Rightarrow> False | Some m \<Rightarrow> m \<noteq> [])"

section \<open>The form validation hook (src/hooks/useFormValidation.ts)\<close>

text \<open>
  \<open>FieldValidationResult\<close> (\<open>{ isValid: boolean; error?: string }\<close>) and the result of
  \<open>validateForm\<close> (\<open>{ isValid: boolean; errors: Record<string, string> }\<close>).
\<close>

record FieldValidationResult =
  isValid :: bool
  error :: "string option"

record FormValidationResult =
  formIsValid :: bool
  formErrors :: "string \<rightharpoonup> string"

text \<open>
  The hook's state: \<open>data\<close>, \<open>errors\<close>, \<open>touched\<close> and \<open>isValidating\<close>. An object is a map
  from its keys; a key stored with the value \<open>undefined\<close> is a key mapped to \<open>Undefined\<close>.
\<close>

record 'n formState =
  data :: "string \<rightharpoonup> 'n jsvalue"
  errors :: "string \<rightharpoonup> string"
  touched :: "string \<rightharpoonup> bool"
  isValidating :: bool

text \<open>
  \<open>UseFormValidationOptions\<close>. The schema is an object literal: its keys are listed in
  order (\<open>Object.keys\<close>) and a rule is looked up by key (\<open>map_of\<close>). The type \<open>'r\<close> of
  a rule and the two functions imported from \<open>../utils/validation\<close> are not part of the
  hook: \<open>validateField\<close> and \<open>validateForm\<close> are parameters of every function below
  that calls them (the translation function \<open>t\<close> they are passed is fixed for a hook
  instance and is part of the parameter).
\<close>

record ('n, 'r) formOptions =
  schema :: "(string \<times> 'r) list"
  validateOnBlur :: bool
  validateOnChange :: bool
  validateOnSubmit :: bool
  initialData :: "(string \<rightharpoonup> 'n jsvalue) option"

text \<open>
  Reading a property of the data object, \<open>dataRef.current[field]\<close>: the object's own
  value, else the inherited member for an inherited name, else \<open>undefined\<close>.
\<close>

definition getProp :: "(string \<rightharpoonup> 'n jsvalue) \<Rightarrow> string \<Rightarrow> 'n jsvalue" where
  "getProp obj k =
     (case obj k of
        Some v \<Rightarrow> v
      | None \<Rightarrow> if inheritedName k then JInherited k else Undefined)"

text \<open>
  Reading the schema, \<open>schemaRef.current[field]\<close>: the rule the schema has for the
  field, else the inherited member for an inherited name, else nothing (\<open>undefined\<close>).
  What is found is what the hook tests with \<open>if (rule)\<close> and hands to \<open>validateField\<close>.
\<close>

datatype 'r schemaMember = Rule 'r | InheritedMember string

definition schemaProp :: "(string \<times> 'r) list \<Rightarrow> string \<Rightarrow> 'r schemaMember option" where
  "schemaProp sch k =
     (case map_of sch k of
        Some rule \<Rightarrow> Some (Rule rule)
      | None \<Rightarrow> if inheritedName k then Some (InheritedMember k) else None)"

text \<open>
  Truthiness of \<open>prev[field]\<close> on the error object: an own message is truthy when it is
  not empty; without an own entry the read is truthy exactly for an inherited name.
\<close>

definition errorTruthy :: "(string \<rightharpoonup> string) \<Rightarrow> string \<Rightarrow> bool" where
  "errorTruthy errs k = (case errs k of Some m \<Rightarrow> m \<noteq> [] | None \<Rightarrow> inheritedName k)"

text \<open>
  \<open>isValid\<close> of the hook: \<open>Object.keys(errors).length === 0\<close>. The other computed
  value, \<open>isDirty\<close>, compares JSON texts of the data and is left out.
\<close>

definition hookIsValid :: "'n formState \<Rightarrow> bool" where
  "hookIsValid s = (errors s = Map.empty)"

text \<open>
  \<open>updateField\<close>: three state updates in order. The second one deletes the field's error
  only when \<open>prev[field]\<close> is truthy; the third one runs only under \<open>validateOnChange\<close>
  and a truthy \<open>schemaRef.current[field]\<close>.
\<close>

definition updateField ::
  "('n, 'r) formOptions \<Rightarrow>
   ('n jsvalue \<Rightarrow> 'r schemaMember \<Rightarrow> string \<Rightarrow> FieldValidationResult) \<Rightarrow>
   string \<Rightarrow> 'n jsvalue \<Rightarrow> 'n formState \<Rightarrow> 'n formState" where
  "updateField opts validateField field v s =
     (let s1 = s\<lparr>data := (data s)(field \<mapsto> v)\<rparr>;
          s2 = (if errorTruthy (errors s1) field
                then s1\<lparr>errors := (errors s1)(field := None)\<rparr>
                else s1)
      in if validateOnChange opts then
           (case schemaProp (schema opts) field of
              None \<Rightarrow> s2
            | Some rule \<Rightarrow>
                (let result = validateField v rule field
                 in if \<not> isValid result \<and> truthy (error result)
                    then s2\<lparr>errors := (errors s2)(field := error result)\<rparr>
                    else s2))
         else s2)"

text \<open>\<open>validateFieldFn\<close> (returned as \<open>validateField\<close>): the result and the new state.\<close>

definition validateFieldFn ::
  "('n, 'r) formOptions \<Rightarrow>
   ('n jsvalue \<Rightarrow> 'r schemaMember \<Rightarrow> string \<Rightarrow> FieldValidationResult) \<Rightarrow>
   string \<Rightarrow> 'n formState \<Rightarrow> FieldValidationResult \<times> 'n formState" where
  "validateFieldFn opts validateField field s =
     (case schemaProp (schema opts) field of
        None \<Rightarrow> (\<lparr>isValid = True, error = None\<rparr>, s)
      | Some rule \<Rightarrow>
          (let result = validateField (getProp (data s) field) rule field
           in if \<not> isValid result \<and> truthy (error result)
              then (result, s\<lparr>errors := (errors s)(field := error result)\<rparr>)
              else (result, s\<lparr>errors := (errors s)(field := None)\<rparr>)))"

text \<open>\<open>validateFormFn\<close>: \<open>isValidating\<close> is set and cleared around the call.\<close>

definition validateFormFn ::
  "('n, 'r) formOptions \<Rightarrow>
   ((string \<rightharpoonup> 'n jsvalue) \<Rightarrow> (string \<times> 'r) list \<Rightarrow> FormValidationResult) \<Rightarrow>
   'n formState \<Rightarrow> FormValidationResult \<times> 'n formState" where
  "validateFormFn opts validateForm s =
     (let s1 = s\<lparr>isValidating := True\<rparr>;
          result = validateForm (data s) (schema opts);
          s2 = s1\<lparr>errors := formErrors result\<rparr>
      in (result, s2\<lparr>isValidating := False\<rparr>))"

definition setFieldTouched :: "string \<Rightarrow> bool \<Rightarrow> 'n formState \<Rightarrow> 'n formState" where
  "setFieldTouched field isTouched s = s\<lparr>touched := (touched s)(field \<mapsto> isTouched)\<rparr>"

definition setError :: "string \<Rightarrow> string \<Rightarrow> 'n formState \<Rightarrow> 'n formState" where
  "setError field e s = s\<lparr>errors := (errors s)(field \<mapsto> e)\<rparr>"

definition clearError :: "string \<Rightarrow> 'n formState \<Rightarrow> 'n formState" where
  "clearError field s = s\<lparr>errors := (errors s)(field := None)\<rparr>"

definition clearErrors :: "'n formState \<Rightarrow> 'n formState" where
  "clearErrors s = s\<lparr>errors := Map.empty\<rparr>"

definition reset ::
  "('n, 'r) formOptions \<Rightarrow> (string \<rightharpoonup> 'n jsvalue) option \<Rightarrow> 'n formState" where
  "reset opts newData =
     \<lparr>data = (case newData of
                Some d \<Rightarrow> d
              | None \<Rightarrow> (case initialData opts of Some d \<Rightarrow> d | None \<Rightarrow> Map.empty)),
      errors = Map.empty, touched = Map.empty, isValidating = False\<rparr>"

definition handleBlur ::
  "('n, 'r) formOptions \<Rightarrow>
   ('n jsvalue \<Rightarrow> 'r schemaMember \<Rightarrow> string \<Rightarrow> FieldValidationResult) \<Rightarrow>
   string \<Rightarrow> 'n formState \<Rightarrow> 'n formState" where
  "handleBlur opts validateField field s =
     (let s1 = setFieldTouched field True s
      in if validateOnBlur opts then snd (validateFieldFn opts validateField field s1) else s1)"

text \<open>
  The part of a change event that \<open>handleChange\<close> reads: \<open>e.target.value\<close>, \<open>.type\<close> and
  \<open>.checked\<close>.
\<close>

record changeTarget =
  targetValue :: string
  targetType :: string
  targetChecked :: bool

text \<open>
  \<open>handleChange\<close>. \<open>Number\<close> is the language's conversion of a string to a number; it is a
  parameter and is only applied to a non-empty string.
\<close>

definition handleChange ::
  "('n, 'r) formOptions \<Rightarrow>
   ('n jsvalue \<Rightarrow> 'r schemaMember \<Rightarrow> string \<Rightarrow> FieldValidationResult) \<Rightarrow>
   (string \<Rightarrow> 'n) \<Rightarrow> string \<Rightarrow> changeTarget \<Rightarrow> 'n formState \<Rightarrow> 'n formState" where
  "handleChange opts validateField Number field e s =
     (let fieldValue =
            (if targetType e = ''checkbox'' then JBool (targetChecked e)
             else if targetType e = ''number''
                  then (if targetValue e = [] then Undefined else JNum (Number (targetValue e)))
                  else JStr (targetValue e))
      in updateField opts validateField field fieldValue s)"

text \<open>
  What became of the caller's \<open>onSubmit\<close> callback: not invoked, or invoked with the data
  and resolved, or invoked and rejected (the rejection propagates to the caller of the
  handler after \<open>isValidating\<close> is cleared).
\<close>

datatype 'n submitOutcome =
    NotInvoked
  | Resolved "string \<rightharpoonup> 'n jsvalue"
  | Rejected "string \<rightharpoonup> 'n jsvalue"

text \<open>
  \<open>handleSubmit\<close>. \<open>onSubmit d\<close> tells whether the callback resolves (\<open>True\<close>) or throws
  on the data \<open>d\<close>. \<open>allTouched\<close> is the object built by the loop over
  \<open>Object.keys(schemaRef.current)\<close>; \<open>runSubmit\<close> is the part after the validation, the
  \<open>try\<close>/\<open>finally\<close> around the awaited callback.
\<close>

definition allTouched :: "(string \<times> 'r) list \<Rightarrow> (string \<rightharpoonup> bool)" where
  "allTouched sch = foldl (\<lambda>acc key. acc(key \<mapsto> True)) Map.empty (map fst sch)"

definition runSubmit ::
  "((string \<rightharpoonup> 'n jsvalue) \<Rightarrow> bool) \<Rightarrow> 'n formState \<Rightarrow> 'n submitOutcome \<times> 'n formState" where
  "runSubmit onSubmit s =
     (let s1 = s\<lparr>isValidating := True\<rparr>
      in (if onSubmit (data s) then Resolved (data s) else Rejected (data s),
          s1\<lparr>isValidating := False\<rparr>))"

definition handleSubmit ::
  "('n, 'r) formOptions \<Rightarrow>
   ((string \<rightharpoonup> 'n jsvalue) \<Rightarrow> (string \<times> 'r) list \<Rightarrow> FormValidationResult) \<Rightarrow>
   ((string \<rightharpoonup> 'n jsvalue) \<Rightarrow> bool) \<Rightarrow> 'n formState \<Rightarrow> 'n submitOutcome \<times> 'n formState" where
  "handleSubmit opts validateForm onSubmit s =
     (if validateOnSubmit opts
      then (case validateFormFn opts validateForm s of
              (result, s1) \<Rightarrow>
                if \<not> formIsValid result
                then (NotInvoked, s1\<lparr>touched := allTouched (schema opts)\<rparr>)
                else runSubmit onSubmit s1)
      else runSubmit onSubmit s)"

section \<open>Numbers read from and written to text\<close>

text \<open>
  A string is a list of code units below 256. \<open>parseInt(string)\<close> with no radix: leading
  white space is skipped, a sign is read, a \<open>0x\<close>/\<open>0X\<close> prefix selects radix 16, and the
  longest run of digits of the radix is the number; no digit at all gives \<open>NaN\<close>, here
  \<open>None\<close>. Integers are unbounded, where the language rounds beyond \<open>2^53\<close>.
\<close>

definition isWhiteSpace :: "char \<Rightarrow> bool" where
  "isWhiteSpace c = (of_char c \<in> {9, 10, 11, 12, 13, 32, 160 :: nat})"

definition digitValue :: "char \<Rightarrow> nat option" where
  "digitValue c =
     (let n = (of_char c :: nat)
      in if 48 \<le> n \<and> n \<le> 57 then Some (n - 48)
         else if 97 \<le> n \<and> n \<le> 122 then Some (n - 87)
         else if 65 \<le> n \<and> n \<le> 90 then Some (n - 55)
         else None)"

definition isDigitOf :: "nat \<Rightarrow> char \<Rightarrow> bool" where
  "isDigitOf radix c = (case digitValue c of None \<Rightarrow> False | Some d \<Rightarrow> d < radix)"

definition digitsValue :: "nat \<Rightarrow> string \<Rightarrow> int" where
  "digitsValue radix z =
     foldl (\<lambda>acc c. acc * int radix + int (case digitValue c of None \<Rightarrow> 0 | Some d \<Rightarrow> d)) 0 z"

definition parseInt :: "string \<Rightarrow> int option" where
  "parseInt inputString =
     (let s0 = dropWhile isWhiteSpace inputString;
          (sign, s1) =
            (case s0 of
               c # rest \<Rightarrow>
                 if c = CHR ''-'' then (- 1, rest)
                 else if c = CHR ''+'' then (1, rest)
                 else (1 :: int, s0)
             | [] \<Rightarrow> (1, s0));
          (radix, s2) =
            (case s1 of
               c # x # rest \<Rightarrow>
                 if c = CHR ''0'' \<and> (x = CHR ''x'' \<or> x = CHR ''X'') then (16, rest)
                 else (10 :: nat, s1)
             | _ \<Rightarrow> (10, s1));
          z = takeWhile (isDigitOf radix) s2
      in if z = [] then None else Some (sign * digitsValue radix z))"

text \<open>\<open>toString()\<close> of an integer: its decimal digits, after a minus sign when negative.\<close>

fun natToString :: "nat \<Rightarrow> string" where
  "natToString n =
     (if n < 10 then [char_of (48 + n)]
      else natToString (n div 10) @ [char_of (48 + n mod 10)])"

declare natToString.simps [simp del]

definition toString :: "int \<Rightarrow> string" where
  "toString i = (if i < 0 then CHR ''-'' # natToString (nat (- i)) else natToString (nat i))"

section \<open>The broker form (src/components/features/brokers/BrokerForm.tsx)\<close>

text \<open>
  \<open>handleEstablishedYearChange\<close>, the change handler of the \<open>established_in\<close> input
  (\<open>type='number'\<close>): \<open>updateField('established_in', value ? parseInt(value) : null)\<close>.
  The form's numbers are results of \<open>parseInt\<close>.
\<close>

definition handleEstablishedYearChange ::
  "(int option, 'r) formOptions \<Rightarrow>
   ((int option) jsvalue \<Rightarrow> 'r schemaMember \<Rightarrow> string \<Rightarrow> FieldValidationResult) \<Rightarrow>
   string \<Rightarrow> (int option) formState \<Rightarrow> (int option) formState" where
  "handleEstablishedYearChange opts validateField v s =
     updateField opts validateField ''established_in''
       (if v \<noteq> [] then JNum (parseInt v) else Null) s"

text \<open>
  Modelled from the spec: the type \<open>ValidationRule\<close> of \<open>../utils/validation\<close> is not among
  the source files. A rule has the kinds the spec lists: "required, min/max length, numeric
  min/max, custom predicate, message"; the keys are those \<open>BROKER_FORM_SCHEMA\<close> uses
  (\<open>minValue\<close> and \<open>maxValue\<close> for \<open>min\<close> and \<open>max\<close>).
\<close>

record validationRule =
  required :: bool
  minLength :: "nat option"
  maxLength :: "nat option"
  minValue :: "int option"
  maxValue :: "int option"
  custom :: "((int option) jsvalue \<Rightarrow> bool) option"
  message :: "string option"

definition noRule :: validationRule where
  "noRule = \<lparr>required = False, minLength = None, maxLength = None, minValue = None,
             maxValue = None, custom = None, message = None\<rparr>"

text \<open>
  \<open>BROKER_FORM_SCHEMA\<close>. \<open>year\<close> is \<open>new Date().getFullYear()\<close>. The custom predicate of
  \<open>established_in\<close> is \<open>!value || (value >= 1800 && value <= year)\<close> on a
  \<open>number | null\<close>: null, \<open>NaN\<close> and 0 are falsy, as are undefined, false and the empty
  string. A non-empty string or an inherited member, which the parameter's type excludes,
  is not compared.
\<close>

definition establishedInCustom :: "int \<Rightarrow> (int option) jsvalue \<Rightarrow> bool" where
  "establishedInCustom year v =
     (case v of
        Undefined \<Rightarrow> True
      | Null \<Rightarrow> True
      | JBool b \<Rightarrow> \<not> b
      | JNum None \<Rightarrow> True
      | JNum (Some x) \<Rightarrow> x = 0 \<or> (x \<ge> 1800 \<and> x \<le> year)
      | JStr str \<Rightarrow> str = []
      | JInherited k \<Rightarrow> False)"

definition BROKER_FORM_SCHEMA :: "int \<Rightarrow> (string \<times> validationRule) list" where
  "BROKER_FORM_SCHEMA year =
     [(''name'',
       noRule\<lparr>required := True, minLength := Some 2, maxLength := Some 100,
              message := Some ''Broker name must be between 2 and 100 characters''\<rparr>),
      (''established_in'',
       noRule\<lparr>minValue := Some 1800, maxValue := Some year,
              custom := Some (establishedInCustom year),
              message := Some ''Please enter a valid year between 1800 and current year''\<rparr>),
      (''headquarter'',
       noRule\<lparr>maxLength := Some 100,
              message := Some ''Headquarter must be less than 100 characters''\<rparr>),
      (''description'',
       noRule\<lparr>minLength := Some 10,
              message := Some ''Description must be at least 10 characters''\<rparr>)]"

text \<open>
  The options the broker form passes to the hook, and its initial data.
\<close>

definition brokerInitialData :: "string \<rightharpoonup> (int option) jsvalue" where
  "brokerInitialData =
     [''name'' \<mapsto> JStr [], ''established_in'' \<mapsto> Null, ''headquarter'' \<mapsto> JStr [],
      ''description'' \<mapsto> JStr []]"

definition brokerFormOptions :: "int \<Rightarrow> (int option, validationRule) formOptions" where
  "brokerFormOptions year =
     \<lparr>schema = BROKER_FORM_SCHEMA year, validateOnBlur = True, validateOnChange = False,
      validateOnSubmit = True, initialData = Some brokerInitialData\<rparr>"

section \<open>Validation of a value against a rule (spec, section 4.2)\<close>

text \<open>
  Modelled from the spec: \<open>validateField\<close> of \<open>../utils/validation\<close> is not among the source
  files. Each kind of constraint the spec lists is checked on the value: a required value
  must not be undefined, null or the empty string; a string must have a length within
  the length bounds; a number must lie within the numeric bounds; the custom predicate
  must hold. The error text is the rule's message, and without one the text the
  translation function \<open>t\<close> gives for the field. An inherited member handed over in
  place of a rule has none of these kinds and constrains nothing.
\<close>

definition violates :: "validationRule \<Rightarrow> (int option) jsvalue \<Rightarrow> bool" where
  "violates rule v =
     ((required rule \<and> (v = Undefined \<or> v = Null \<or> v = JStr [])) \<or>
      (case v of
         JStr str \<Rightarrow>
           (case minLength rule of None \<Rightarrow> False | Some n \<Rightarrow> length str < n) \<or>
           (case maxLength rule of None \<Rightarrow> False | Some n \<Rightarrow> length str > n)
       | JNum (Some x) \<Rightarrow>
           (case minValue rule of None \<Rightarrow> False | Some m \<Rightarrow> x < m) \<or>
           (case maxValue rule of None \<Rightarrow> False | Some m \<Rightarrow> x > m)
       | _ \<Rightarrow> False) \<or>
      (case custom rule of None \<Rightarrow> False | Some p \<Rightarrow> \<not> p v))"

definition validateFieldSpec ::
  "(string \<Rightarrow> string) \<Rightarrow> (int option) jsvalue \<Rightarrow> validationRule schemaMember \<Rightarrow> string \<Rightarrow>
   FieldValidationResult" where
  "validateFieldSpec t v member fieldName =
     (case member of
        Rule rule \<Rightarrow>
          if violates rule v
          then \<lparr>isValid = False,
                error = Some (case message rule of Some m \<Rightarrow> m | None \<Rightarrow> t fieldName)\<rparr>
          else \<lparr>isValid = True, error = None\<rparr>
      | InheritedMember k \<Rightarrow> \<lparr>isValid = True, error = None\<rparr>)"

text \<open>
  Modelled from the spec: \<open>validateForm\<close> of \<open>../utils/validation\<close> is not among the source
  files. It "validates the whole schema": every field of the schema is validated against
  its rule, the error map holds the message of each failing field, and the form is valid
  when no field fails.
\<close>

definition validateFormSpec ::
  "(string \<Rightarrow> string) \<Rightarrow> (string \<rightharpoonup> (int option) jsvalue) \<Rightarrow>
   (string \<times> validationRule) list \<Rightarrow> FormValidationResult" where
  "validateFormSpec t d sch =
     \<lparr>formIsValid =
        list_all (\<lambda>(k, rule). isValid (validateFieldSpec t (getProp d k) (Rule rule) k)) sch,
      formErrors =
        map_of (List.map_filter
          (\<lambda>(k, rule).
             map_option (Pair k) (error (validateFieldSpec t (getProp d k) (Rule rule) k)))
          sch)\<rparr>"

text \<open>
  The spec's submit scenario: the schema \<open>{name: required, minLength: 2}\<close> with the
  hook's default flags, and a form whose data is \<open>{name: ""}\<close>.
\<close>

definition scenarioOptions :: "(int option, validationRule) formOptions" where
  "scenarioOptions =
     \<lparr>schema = [(''name'', noRule\<lparr>required := True, minLength := Some 2\<rparr>)],
      validateOnBlur = True, validateOnChange = False, validateOnSubmit = True,
      initialData = None\<rparr>"

definition scenarioState :: "(int option) formState" where
  "scenarioState =
     \<lparr>data = [''name'' \<mapsto> JStr []], errors = Map.empty, touched = Map.empty,
      isValidating = False\<rparr>"

section \<open>The list filtering hook as the pages see it\<close>

text \<open>
  The state of the filtering hooks, with the fields the two pages read from
  \<open>filterState\<close> (the brokers hook has \<open>viewMode\<close>, the posts hook \<open>filterStatus\<close> and
  \<open>activeTab\<close>; the rest is common).
\<close>

datatype direction = Asc | Desc

record filterState =
  searchTerm :: string
  filterStatus :: string
  activeTab :: string
  viewMode :: string
  sortColumn :: string
  sortDirection :: direction
  itemsPerPage :: nat
  currentPage :: int
  pageInputValue :: string

text \<open>
  What a page takes from \<open>useBrokersFiltering({ brokers })\<close> or
  \<open>usePostsFiltering({ posts })\<close> besides \<open>filterState\<close>: the current page's records
  (\<open>paginatedBrokers\<close>, \<open>paginatedPosts\<close>), \<open>totalPages\<close>, and the callbacks. A callback
  is a state update: it maps the filter state to the next one. \<open>filteredRecords\<close> is the
  full filtered and sorted list, which the spec names as an output too. The hooks
  themselves are not among the source files, so the page handlers below work on any
  value of this type.
\<close>

record 'a filteringHook =
  filteredRecords :: "'a list"
  paginatedRecords :: "'a list"
  totalPages :: int
  setSearchTerm :: "string \<Rightarrow> filterState \<Rightarrow> filterState"
  setFilterStatus :: "string \<Rightarrow> filterState \<Rightarrow> filterState"
  setViewMode :: "string \<Rightarrow> filterState \<Rightarrow> filterState"
  setItemsPerPage :: "nat \<Rightarrow> filterState \<Rightarrow> filterState"
  setPageInputValue :: "string \<Rightarrow> filterState \<Rightarrow> filterState"
  handleSort :: "string \<Rightarrow> filterState \<Rightarrow> filterState"
  handlePageChange :: "int \<Rightarrow> filterState \<Rightarrow> filterState"
  handleTabChange :: "string \<Rightarrow> filterState \<Rightarrow> filterState"

section \<open>The page handlers (src/pages/Brokers.tsx, src/pages/Posts.tsx)\<close>

text \<open>
  The page-input handlers, the same in both pages. \<open>onBlur\<close> parses the text of the
  input, \<open>onKeyDown\<close> parses the buffer \<open>filterState.pageInputValue\<close> and only on the
  Enter key. The test \<open>!isNaN(page) && page >= 1 && page <= totalPages\<close> is the case
  distinction on the parsed number.
\<close>

definition pageInputOnBlur :: "'a filteringHook \<Rightarrow> string \<Rightarrow> filterState \<Rightarrow> filterState" where
  "pageInputOnBlur h targetText s =
     (case parseInt targetText of
        None \<Rightarrow> setPageInputValue h (toString (currentPage s)) s
      | Some page \<Rightarrow>
          if page \<ge> 1 \<and> page \<le> totalPages h
          then handlePageChange h page s
          else setPageInputValue h (toString (currentPage s)) s)"

definition pageInputOnKeyDown :: "'a filteringHook \<Rightarrow> string \<Rightarrow> filterState \<Rightarrow> filterState" where
  "pageInputOnKeyDown h key s =
     (if key = ''Enter''
      then (case parseInt (pageInputValue s) of
              None \<Rightarrow> setPageInputValue h (toString (currentPage s)) s
            | Some page \<Rightarrow>
                if page \<ge> 1 \<and> page \<le> totalPages h
                then handlePageChange h page s
                else setPageInputValue h (toString (currentPage s)) s)
      else s)"




definition paginationSelectorOnChange ::
  "'a filteringHook \<Rightarrow> nat \<Rightarrow> filterState \<Rightarrow> filterState" where
  "paginationSelectorOnChange h v s = handlePageChange h 1 (setItemsPerPage h v s)"

text \<open>
  Deleting. \<open>handleConfirmDelete\<close> of the brokers page works on the confirm dialog's state
  and the filter state; \<open>deleted\<close> tells whether the awaited \<open>deleteBroker\<close> resolved
  (otherwise it threw, and the rejection leaves the handler after the \<open>finally\<close> block).
  The hook value and the filter state are the ones of the render that created the handler.
\<close>

record confirmDialog =
  isOpen :: bool
  brokerId :: "string option"
  brokerName :: "string option"

datatype deleteOutcome = NothingToDelete | Deleted | DeleteFailed

definition handleConfirmDelete ::
  "'a filteringHook \<Rightarrow> bool \<Rightarrow> filterState \<times> confirmDialog \<Rightarrow>
   deleteOutcome \<times> filterState \<times> confirmDialog" where
  "handleConfirmDelete h deleted st =
     (case st of (fs, dlg) \<Rightarrow>
        if \<not> truthy (brokerId dlg) then (NothingToDelete, fs, dlg)
        else
          (let closed = \<lparr>isOpen = False, brokerId = None, brokerName = None\<rparr>
           in if deleted
              then (Deleted,
                    if length (paginatedRecords h) = 1 \<and> currentPage fs > 1
                    then handlePageChange h (currentPage fs - 1) fs
                    else fs,
                    closed)
              else (DeleteFailed, fs, closed)))"

text \<open>
  \<open>confirmDelete\<close> of the posts page: its dialog state holds the post and a flag
  \<open>isDeleting\<close>; a failed delete is caught and logged.
\<close>

record 'a deleteConfirm =
  confirmIsOpen :: bool
  post :: "'a option"
  isDeleting :: bool

definition confirmDelete ::
  "'a filteringHook \<Rightarrow> bool \<Rightarrow> filterState \<times> 'a deleteConfirm \<Rightarrow>
   deleteOutcome \<times> filterState \<times> 'a deleteConfirm" where
  "confirmDelete h deleted st =
     (case st of (fs, dlg) \<Rightarrow>
        if post dlg = None then (NothingToDelete, fs, dlg)
        else
          (let dlg1 = dlg\<lparr>isDeleting := True\<rparr>
           in if deleted
              then (Deleted,
                    if length (paginatedRecords h) = 1 \<and> currentPage fs > 1
                    then handlePageChange h (currentPage fs - 1) fs
                    else fs,
                    \<lparr>confirmIsOpen = False, post = None, isDeleting = False\<rparr>)
              else (DeleteFailed, fs, dlg1\<lparr>isDeleting := False\<rparr>)))"

section \<open>The list filtering hook (spec, section 4.1)\<close>

text \<open>
  Modelled from the spec: what the hook needs to know of a record of type \<open>'a\<close>, none of
  which the spec fixes: the text fields the search looks at ("one or more text fields"),
  the status and the type the filters compare, and for each sort column the order of two
  records. The hooks \<open>useBrokersFiltering\<close> and \<open>usePostsFiltering\<close> are imported by the
  pages but are not among the source files.
\<close>

record 'a listConfig =
  searchFields :: "'a \<Rightarrow> string list"
  statusOf :: "'a \<Rightarrow> string"
  typeOf :: "'a \<Rightarrow> string"
  columnOrder :: "string \<Rightarrow> 'a \<Rightarrow> 'a \<Rightarrow> bool"

text \<open>
  Modelled from the spec: "case-insensitive substring match". Case is folded on the
  letters A to Z; \<open>includesStr s t\<close> is \<open>s.includes(t)\<close>.
\<close>

definition toLowerCase :: "string \<Rightarrow> string" where
  "toLowerCase s =
     map (\<lambda>c. let n = (of_char c :: nat) in if 65 \<le> n \<and> n \<le> 90 then char_of (n + 32) else c) s"

fun includesStr :: "string \<Rightarrow> string \<Rightarrow> bool" where
  "includesStr [] t = (t = [])"
| "includesStr (c # cs) t = (prefix t (c # cs) \<or> includesStr cs t)"

text \<open>
  Modelled from the spec: a record passes the search when one of its searched fields
  contains the term, case-insensitively.
\<close>

definition matchesSearch :: "'a listConfig \<Rightarrow> string \<Rightarrow> 'a \<Rightarrow> bool" where
  "matchesSearch cfg term r =
     list_ex (\<lambda>f. includesStr (toLowerCase f) (toLowerCase term)) (searchFields cfg r)"

text \<open>
  Modelled from the spec: the "optional category/status/tab filter". The value \<open>all\<close>
  (the first tab and the first status option of the posts page) switches a filter off.
\<close>

definition matchesFilter :: "'a listConfig \<Rightarrow> filterState \<Rightarrow> 'a \<Rightarrow> bool" where
  "matchesFilter cfg s r =
     ((filterStatus s = ''all'' \<or> statusOf cfg r = filterStatus s) \<and>
      (activeTab s = ''all'' \<or> typeOf cfg r = activeTab s))"

text \<open>
  Modelled from the spec: a stable sort by the selected column, the order reversed for
  the descending direction.
\<close>

fun insertBy :: "('a \<Rightarrow> 'a \<Rightarrow> bool) \<Rightarrow> 'a \<Rightarrow> 'a list \<Rightarrow> 'a list" where
  "insertBy le x [] = [x]"
| "insertBy le x (y # ys) = (if le x y then x # y # ys else y # insertBy le x ys)"

definition sortBy :: "('a \<Rightarrow> 'a \<Rightarrow> bool) \<Rightarrow> 'a list \<Rightarrow> 'a list" where
  "sortBy le xs = foldr (insertBy le) xs []"

definition sortOrder :: "'a listConfig \<Rightarrow> filterState \<Rightarrow> 'a \<Rightarrow> 'a \<Rightarrow> bool" where
  "sortOrder cfg s x y =
     (case sortDirection s of
        Asc \<Rightarrow> columnOrder cfg (sortColumn s) x y
      | Desc \<Rightarrow> columnOrder cfg (sortColumn s) y x)"

text \<open>
  Modelled from the spec: "Filter predicate is applied before sort; sort is applied before
  pagination."
\<close>

definition filteredAndSorted :: "'a listConfig \<Rightarrow> filterState \<Rightarrow> 'a list \<Rightarrow> 'a list" where
  "filteredAndSorted cfg s records =
     sortBy (sortOrder cfg s)
       (filter (\<lambda>r. matchesSearch cfg (searchTerm s) r \<and> matchesFilter cfg s r) records)"

text \<open>
  Modelled from the spec: "total page count = ceil(filteredCount / pageSize), minimum 1".
\<close>

definition totalPagesSpec :: "nat \<Rightarrow> nat \<Rightarrow> int" where
  "totalPagesSpec filteredCount pageSize = max 1 \<lceil>real filteredCount / real pageSize\<rceil>"

text \<open>
  Modelled from the spec: "the current page's slice", for a 1-based page number: the
  records from index \<open>(page - 1) * pageSize\<close> on, at most \<open>pageSize\<close> of them.
\<close>

definition paginate :: "'a list \<Rightarrow> int \<Rightarrow> nat \<Rightarrow> 'a list" where
  "paginate xs page pageSize = take pageSize (drop (nat (page - 1) * pageSize) xs)"

text \<open>
  Modelled from the spec: "Changing the search term, filter value, or tab resets current
  page to 1."
\<close>

definition setSearchTermSpec :: "string \<Rightarrow> filterState \<Rightarrow> filterState" where
  "setSearchTermSpec term s = s\<lparr>searchTerm := term, currentPage := 1\<rparr>"

definition setFilterStatusSpec :: "string \<Rightarrow> filterState \<Rightarrow> filterState" where
  "setFilterStatusSpec v s = s\<lparr>filterStatus := v, currentPage := 1\<rparr>"

definition handleTabChangeSpec :: "string \<Rightarrow> filterState \<Rightarrow> filterState" where
  "handleTabChangeSpec tab s = s\<lparr>activeTab := tab, currentPage := 1\<rparr>"

text \<open>
  Modelled from the spec: the remaining setters store their argument; changing the page
  size does not reset the page ("page resets to 1 (caller-triggered)").
\<close>

definition setViewModeSpec :: "string \<Rightarrow> filterState \<Rightarrow> filterState" where
  "setViewModeSpec v s = s\<lparr>viewMode := v\<rparr>"

definition setItemsPerPageSpec :: "nat \<Rightarrow> filterState \<Rightarrow> filterState" where
  "setItemsPerPageSpec n s = s\<lparr>itemsPerPage := n\<rparr>"

definition setPageInputValueSpec :: "string \<Rightarrow> filterState \<Rightarrow> filterState" where
  "setPageInputValueSpec v s = s\<lparr>pageInputValue := v\<rparr>"

text \<open>
  Modelled from the spec: "Sort toggles direction when the same column is clicked twice;
  selecting a new column defaults to ascending."
\<close>

definition handleSortSpec :: "string \<Rightarrow> filterState \<Rightarrow> filterState" where
  "handleSortSpec column s =
     (if sortColumn s = column
      then s\<lparr>sortDirection := (case sortDirection s of Asc \<Rightarrow> Desc | Desc \<Rightarrow> Asc)\<rparr>
      else s\<lparr>sortColumn := column, sortDirection := Asc\<rparr>)"

text \<open>
  Modelled from the spec: "Page navigation clamps to [1, totalPages]". The first argument
  is the hook's page count.
\<close>

definition handlePageChangeSpec :: "int \<Rightarrow> int \<Rightarrow> filterState \<Rightarrow> filterState" where
  "handlePageChangeSpec pages page s = s\<lparr>currentPage := max 1 (min pages page)\<rparr>"

text \<open>
  Modelled from the spec: the hook, for a record list and a filter state. Its outputs are
  the "filtered-and-sorted full list, the current page's slice, and total page count",
  and the callbacks above.
\<close>

definition useFiltering :: "'a listConfig \<Rightarrow> 'a list \<Rightarrow> filterState \<Rightarrow> 'a filteringHook" where
  "useFiltering cfg records s =
     (let filtered = filteredAndSorted cfg s records;
          pages = totalPagesSpec (length filtered) (itemsPerPage s)
      in \<lparr>filteredRecords = filtered,
          paginatedRecords = paginate filtered (currentPage s) (itemsPerPage s),
          totalPages = pages,
          setSearchTerm = setSearchTermSpec,
          setFilterStatus = setFilterStatusSpec,
          setViewMode = setViewModeSpec,
          setItemsPerPage = setItemsPerPageSpec,
          setPageInputValue = setPageInputValueSpec,
          handleSort = handleSortSpec,
          handlePageChange = handlePageChangeSpec pages,
          handleTabChange = handleTabChangeSpec\<rparr>)"

text \<open>
  Values for the scenarios: a list of names as records, searched by the name itself and
  ordered by length for every column; a filter state with no search term, no filter,
  ten records per page and page 1; a list of 25 records; and a state on page 2 of pages
  of two records.
\<close>

definition nameConfig :: "string listConfig" where
  "nameConfig =
     \<lparr>searchFields = (\<lambda>r. [r]), statusOf = (\<lambda>r. ''published''), typeOf = (\<lambda>r. ''news''),
      columnOrder = (\<lambda>c x y. length x \<le> length y)\<rparr>"

definition initialFilterState :: filterState where
  "initialFilterState =
     \<lparr>searchTerm = [], filterStatus = ''all'', activeTab = ''all'', viewMode = ''list'',
      sortColumn = ''created_at'', sortDirection = Desc, itemsPerPage = 10, currentPage = 1,
      pageInputValue = ''1''\<rparr>"

definition twentyFiveRecords :: "string list" where
  "twentyFiveRecords = map natToString [0..<25]"

definition lastPageState :: filterState where
  "lastPageState = initialFilterState\<lparr>itemsPerPage := 2, currentPage := 2\<rparr>"

section \<open>Properties of the form validation hook\<close>

lemma schemaProp_no_rule:
  "map_of sch f = None \<Longrightarrow>
   schemaProp sch f = (if inheritedName f then Some (InheritedMember f) else None)"
  by (simp add: schemaProp_def)

lemma validateFieldSpec_inherited:
  "validateFieldSpec t v (InheritedMember k) f = \<lparr>isValid = True, error = None\<rparr>"
  by (simp add: validateFieldSpec_def)

lemma inheritedName_simps:
  "inheritedName ''toString''" "\<not> inheritedName ''logo''" "\<not> inheritedName ''name''"
  "\<not> inheritedName ''established_in''"
  by (simp_all add: inheritedName_def objectPrototypeNames_def)

text \<open>
  Claim C9. A field with no rule in the schema is considered valid, whatever its value:
  \<open>validateFieldFn\<close> answers with \<open>isValid = true\<close> and adds no entry to the error map.
  For a field whose name no object inherits this holds for every validator: the answer is
  \<open>{ isValid: true }\<close> and the state is left as it was. For one of the inherited names
  (\<open>constructor\<close>, \<open>toString\<close>, ...) the schema read finds the inherited member, so the
  validator is asked about it; the assumption on the validator, which is not part of the
  hook, is that it accepts when handed such a member in place of a rule. The field's
  error entry, if there was one, is then deleted.
\<close>

theorem validateFieldFn_no_rule:
  assumes "map_of (schema opts) f = None"
    and "inheritedName f \<longrightarrow> isValid (validateField (getProp (data s) f) (InheritedMember f) f)"
  shows "isValid (fst (validateFieldFn opts validateField f s)) \<and>
         dom (errors (snd (validateFieldFn opts validateField f s))) \<subseteq> dom (errors s) \<and>
         (\<not> inheritedName f \<longrightarrow>
            validateFieldFn opts validateField f s = (\<lparr>isValid = True, error = None\<rparr>, s)) \<and>
         (inheritedName f \<longrightarrow>
            errors (snd (validateFieldFn opts validateField f s)) = (errors s)(f := None))"
proof (cases "inheritedName f")
  case False
  then show ?thesis
    using assms(1) by (simp add: validateFieldFn_def schemaProp_no_rule)
next
  case True
  then show ?thesis
    using assms by (auto simp: validateFieldFn_def schemaProp_no_rule Let_def)
qed

theorem validateFieldFn_no_rule_witness:
  "validateFieldFn (brokerFormOptions 2025) (validateFieldSpec (\<lambda>k. k)) ''logo''
     (setError ''logo'' ''too large'' (reset (brokerFormOptions 2025) None))
   = (\<lparr>isValid = True, error = None\<rparr>,
      setError ''logo'' ''too large'' (reset (brokerFormOptions 2025) None)) \<and>
   isValid (fst (validateFieldFn (brokerFormOptions 2025) (validateFieldSpec (\<lambda>k. k)) ''toString''
     (setError ''toString'' ''odd'' (reset (brokerFormOptions 2025) None)))) \<and>
   errors (snd (validateFieldFn (brokerFormOptions 2025) (validateFieldSpec (\<lambda>k. k)) ''toString''
     (setError ''toString'' ''odd'' (reset (brokerFormOptions 2025) None)))) = Map.empty"
proof -
  let ?opts = "brokerFormOptions 2025"
  let ?vf = "validateFieldSpec (\<lambda>k. k)"
  let ?s1 = "setError ''logo'' ''too large'' (reset ?opts None)"
  let ?s2 = "setError ''toString'' ''odd'' (reset ?opts None)"
  have l: "map_of (schema ?opts) ''logo'' = None"
    and t: "map_of (schema ?opts) ''toString'' = None"
    by (simp_all add: brokerFormOptions_def BROKER_FORM_SCHEMA_def)
  have c1: "inheritedName ''logo'' \<longrightarrow>
      isValid (?vf (getProp (data ?s1) ''logo'') (InheritedMember ''logo'') ''logo'')"
    by (simp add: validateFieldSpec_inherited)
  have c2: "inheritedName ''toString'' \<longrightarrow>
      isValid (?vf (getProp (data ?s2) ''toString'') (InheritedMember ''toString'') ''toString'')"
    by (simp add: validateFieldSpec_inherited)
  have e: "(errors ?s2)(''toString'' := None) = Map.empty"
    by (simp add: setError_def reset_def)
  show ?thesis
    using validateFieldFn_no_rule [of ?opts "''logo''" ?vf ?s1, OF l c1]
      validateFieldFn_no_rule [of ?opts "''toString''" ?vf ?s2, OF t c2]
    by (simp add: inheritedName_simps e)
qed

text \<open>
  What \<open>updateField\<close> does to the error map. The field's entry goes unless its message is
  the empty string; the new value is then validated exactly when validation on change is
  enabled and the schema read finds something, a rule or an inherited member, and an
  entry is put back only if the validator reports the value invalid with a non-empty
  message.
\<close>

lemma updateField_errors:
  "errors (updateField opts validateField f v s) =
     (let cleared = (if errors s f = Some [] then errors s else (errors s)(f := None))
      in case (if validateOnChange opts then schemaProp (schema opts) f else None) of
           None \<Rightarrow> cleared
         | Some member \<Rightarrow>
             (let r = validateField v member f
              in if \<not> isValid r \<and> truthy (error r)
                 then cleared(f := error r)
                 else cleared))"
  by (cases "errors s f")
    (auto simp: updateField_def Let_def truthy_def errorTruthy_def split: option.splits)

text \<open>
  Claim C6 at the input where the code departs from it. After \<open>setError('name', '')\<close>
  the broker form (no validation on change) updates the field \<open>name\<close>: the entry is
  still in the error map, with its empty message, and the hook's \<open>isValid\<close> is still
  false. The guard \<open>if (prev[field])\<close> takes the empty message for no error.
\<close>

theorem updateField_keeps_empty_message:
  "errors (updateField (brokerFormOptions 2025) (validateFieldSpec (\<lambda>k. k)) ''name'' (JStr ''A'')
            (setError ''name'' [] (reset (brokerFormOptions 2025) None))) ''name'' = Some [] \<and>
   \<not> hookIsValid (updateField (brokerFormOptions 2025) (validateFieldSpec (\<lambda>k. k)) ''name''
            (JStr ''A'') (setError ''name'' [] (reset (brokerFormOptions 2025) None)))"
proof -
  let ?s = "updateField (brokerFormOptions 2025) (validateFieldSpec (\<lambda>k. k)) ''name''
              (JStr ''A'') (setError ''name'' [] (reset (brokerFormOptions 2025) None))"
  have e: "errors ?s ''name'' = Some []"
    by (simp add: updateField_errors brokerFormOptions_def setError_def reset_def)
  then have "errors ?s \<noteq> Map.empty"
    by (metis option.distinct(1))
  with e show ?thesis
    by (simp add: hookIsValid_def)
qed

text \<open>
  Claim C8, as stated, fails for the field it names: the \<open>established_in\<close> input of the
  broker form has its own change handler, and for the empty string that handler stores
  null, not undefined.
\<close>

theorem established_in_empty_not_undefined:
  "data (handleEstablishedYearChange (brokerFormOptions 2025) (validateFieldSpec (\<lambda>k. k)) []
           (reset (brokerFormOptions 2025) None)) ''established_in'' \<noteq> Some Undefined"
  by (simp add: handleEstablishedYearChange_def updateField_def Let_def brokerFormOptions_def
      split: option.splits)

text \<open>
  Claim C8, amended. The hook's own \<open>handleChange\<close>, on an input of type \<open>number\<close> whose
  text is empty, stores undefined for the field: the conversion to a number is not
  applied, so the stored value is no number at all, neither 0 nor \<open>NaN\<close>. The broker
  form's handler for \<open>established_in\<close> stores null for the empty string.
\<close>

theorem numeric_input_empty_string:
  "(targetType e = ''number'' \<and> targetValue e = [] \<longrightarrow>
      data (handleChange opts validateField Number f e s) f = Some Undefined) \<and>
   data (handleEstablishedYearChange opts' validateField' [] s') ''established_in'' = Some Null"
  by (simp add: handleChange_def handleEstablishedYearChange_def updateField_def Let_def
      split: option.splits)

theorem numeric_input_empty_string_witness:
  "targetType \<lparr>targetValue = [], targetType = ''number'', targetChecked = False\<rparr> = ''number'' \<and>
   targetValue \<lparr>targetValue = [], targetType = ''number'', targetChecked = False\<rparr> = [] \<and>
   data (handleChange (brokerFormOptions 2025) (validateFieldSpec (\<lambda>k. k)) parseInt
           ''established_in''
           \<lparr>targetValue = [], targetType = ''number'', targetChecked = False\<rparr>
           (reset (brokerFormOptions 2025) None)) ''established_in'' = Some Undefined \<and>
   data (handleEstablishedYearChange (brokerFormOptions 2025) (validateFieldSpec (\<lambda>k. k)) []
           (reset (brokerFormOptions 2025) None)) ''established_in'' = Some Null"
  using numeric_input_empty_string
    [of "\<lparr>targetValue = [], targetType = ''number'', targetChecked = False\<rparr>"
      "brokerFormOptions 2025" "validateFieldSpec (\<lambda>k. k)" parseInt "''established_in''"
      "reset (brokerFormOptions 2025) None" "brokerFormOptions 2025"
      "validateFieldSpec (\<lambda>k. k)" "reset (brokerFormOptions 2025) None"]
  by simp

lemma allTouched_fold:
  "foldl (\<lambda>acc key. acc(key \<mapsto> True)) m ks k = (if k \<in> set ks then Some True else m k)"
  by (induction ks arbitrary: m) auto

lemma allTouched_keys: "allTouched sch k = (if k \<in> fst ` set sch then Some True else None)"
  by (simp add: allTouched_def allTouched_fold)

text \<open>
  Claim C7. With validation on submit enabled, when the validation of the whole schema
  fails (the validator answers \<open>isValid = false\<close> and reports at least one failing field),
  \<open>handleSubmit\<close> does not invoke the caller's \<open>onSubmit\<close>, every field named in the
  schema is marked touched, the error map is the validator's map of failing fields, and
  the hook's \<open>isValid\<close> is false. The validator \<open>validateForm\<close> is any function.
\<close>

theorem handleSubmit_aborts_on_invalid:
  assumes "validateOnSubmit opts"
    and "\<not> formIsValid (validateForm (data s) (schema opts))"
    and "formErrors (validateForm (data s) (schema opts)) \<noteq> Map.empty"
  shows "fst (handleSubmit opts validateForm onSubmit s) = NotInvoked \<and>
         (\<forall>k \<in> fst ` set (schema opts).
            touched (snd (handleSubmit opts validateForm onSubmit s)) k = Some True) \<and>
         errors (snd (handleSubmit opts validateForm onSubmit s)) =
           formErrors (validateForm (data s) (schema opts)) \<and>
         \<not> hookIsValid (snd (handleSubmit opts validateForm onSubmit s))"
  using assms
  by (simp add: handleSubmit_def validateFormFn_def Let_def hookIsValid_def allTouched_keys)

text \<open>
  The scenario of claim C7: schema \<open>{name: required, minLength: 2}\<close>, data \<open>{name: ""}\<close>,
  submit. The error map is \<open>{name: message}\<close>, \<open>name\<close> is touched, \<open>isValid\<close> is false and
  \<open>onSubmit\<close> is not invoked.
\<close>

theorem handleSubmit_aborts_on_invalid_witness:
  "fst (handleSubmit scenarioOptions (validateFormSpec (\<lambda>k. k @ '' is required''))
          (\<lambda>d. True) scenarioState) = NotInvoked \<and>
   errors (snd (handleSubmit scenarioOptions (validateFormSpec (\<lambda>k. k @ '' is required''))
          (\<lambda>d. True) scenarioState)) = [''name'' \<mapsto> ''name is required''] \<and>
   touched (snd (handleSubmit scenarioOptions (validateFormSpec (\<lambda>k. k @ '' is required''))
          (\<lambda>d. True) scenarioState)) ''name'' = Some True \<and>
   \<not> hookIsValid (snd (handleSubmit scenarioOptions
          (validateFormSpec (\<lambda>k. k @ '' is required'')) (\<lambda>d. True) scenarioState))"
proof -
  let ?vf = "validateFormSpec (\<lambda>k. k @ '' is required'')"
  have e: "formErrors (?vf (data scenarioState) (schema scenarioOptions))
             = [''name'' \<mapsto> ''name is required'']"
    by (simp add: scenarioState_def scenarioOptions_def validateFormSpec_def
        validateFieldSpec_def violates_def noRule_def getProp_def List.map_filter_simps)
  have a: "validateOnSubmit scenarioOptions"
    by (simp add: scenarioOptions_def)
  have b: "\<not> formIsValid (?vf (data scenarioState) (schema scenarioOptions))"
    by (simp add: scenarioState_def scenarioOptions_def validateFormSpec_def
        validateFieldSpec_def violates_def noRule_def getProp_def)
  have c: "formErrors (?vf (data scenarioState) (schema scenarioOptions)) \<noteq> Map.empty"
    unfolding e by simp
  have k: "''name'' \<in> fst ` set (schema scenarioOptions)"
    by (simp add: scenarioOptions_def)
  show ?thesis
    using handleSubmit_aborts_on_invalid
      [of scenarioOptions ?vf scenarioState "\<lambda>d. True", OF a b c] e k
    by auto
qed

section \<open>Properties of the page handlers and of the list filtering hook\<close>

lemma set_insertBy: "set (insertBy le x xs) = insert x (set xs)"
  by (induction xs) auto

lemma length_insertBy: "length (insertBy le x xs) = Suc (length xs)"
  by (induction xs) auto

lemma set_sortBy: "set (sortBy le xs) = set xs"
  by (induction xs) (auto simp: sortBy_def set_insertBy)

lemma length_sortBy: "length (sortBy le xs) = length xs"
  by (induction xs) (auto simp: sortBy_def length_insertBy)

lemma includesStr_sublist: "includesStr s t \<longleftrightarrow> sublist t s"
  by (induction s) (auto simp: sublist_Cons_right)

lemma totalPagesSpec_ge_1: "1 \<le> totalPagesSpec n P"
  by (simp add: totalPagesSpec_def)

lemma le_ceiling_pages:
  assumes "0 < P"
  shows "c \<le> \<lceil>real n / real P\<rceil> \<longleftrightarrow> (c - 1) * int P < int n"
proof -
  have "c \<le> \<lceil>real n / real P\<rceil> \<longleftrightarrow> real_of_int (c - 1) < real n / real P"
    by (simp add: le_ceiling_iff)
  also have "\<dots> \<longleftrightarrow> real_of_int (c - 1) * real P < real n"
    using assms by (simp add: pos_less_divide_eq)
  also have "\<dots> \<longleftrightarrow> real_of_int ((c - 1) * int P) < real_of_int (int n)"
    by simp
  also have "\<dots> \<longleftrightarrow> (c - 1) * int P < int n"
    by (simp only: of_int_less_iff)
  finally show ?thesis .
qed

lemma le_totalPagesSpec_iff:
  "0 < P \<Longrightarrow> c \<le> totalPagesSpec n P \<longleftrightarrow> c \<le> 1 \<or> (c - 1) * int P < int n"
  by (auto simp: totalPagesSpec_def le_max_iff_disj le_ceiling_pages)

lemma totalPagesSpec_eq_ceiling:
  assumes "0 < P" "0 < n"
  shows "totalPagesSpec n P = \<lceil>real n / real P\<rceil>"
proof -
  have "1 \<le> \<lceil>real n / real P\<rceil>"
    using assms by (simp add: le_ceiling_pages)
  then show ?thesis by (simp add: totalPagesSpec_def)
qed

lemma length_paginate:
  "length (paginate xs c P) = min P (length xs - nat (c - 1) * P)"
  by (simp add: paginate_def min.commute)

lemma paginate_nonempty_iff:
  "paginate xs c P \<noteq> [] \<longleftrightarrow> 0 < P \<and> nat (c - 1) * P < length xs"
  by (auto simp: paginate_def)

lemma useFiltering_simps:
  "filteredRecords (useFiltering cfg records s) = filteredAndSorted cfg s records"
  "paginatedRecords (useFiltering cfg records s) =
     paginate (filteredAndSorted cfg s records) (currentPage s) (itemsPerPage s)"
  "totalPages (useFiltering cfg records s) =
     totalPagesSpec (length (filteredAndSorted cfg s records)) (itemsPerPage s)"
  "setSearchTerm (useFiltering cfg records s) = setSearchTermSpec"
  "setFilterStatus (useFiltering cfg records s) = setFilterStatusSpec"
  "setPageInputValue (useFiltering cfg records s) = setPageInputValueSpec"
  "handleSort (useFiltering cfg records s) = handleSortSpec"
  "handlePageChange (useFiltering cfg records s) =
     handlePageChangeSpec (totalPagesSpec (length (filteredAndSorted cfg s records)) (itemsPerPage s))"
  "handleTabChange (useFiltering cfg records s) = handleTabChangeSpec"
  by (simp_all add: useFiltering_def Let_def)

lemma length_filtered_all:
  assumes "searchTerm s = []" "filterStatus s = ''all''" "activeTab s = ''all''"
    and "\<forall>r \<in> set records. searchFields cfg r \<noteq> []"
  shows "length (filteredAndSorted cfg s records) = length records"
proof -
  have "includesStr f []" for f by (cases f) simp_all
  then have "matchesSearch cfg [] r" if "r \<in> set records" for r
    using assms(4) that by (cases "searchFields cfg r") (auto simp: matchesSearch_def toLowerCase_def)
  then have "filter (\<lambda>r. matchesSearch cfg (searchTerm s) r \<and> matchesFilter cfg s r) records = records"
    using assms(1-3) by (simp add: matchesFilter_def filter_id_conv)
  then show ?thesis by (simp add: filteredAndSorted_def length_sortBy)
qed

lemma length_filtered_twentyFive:
  "length (filteredAndSorted nameConfig (initialFilterState\<lparr>currentPage := c\<rparr>)
     twentyFiveRecords) = 25"
  by (subst length_filtered_all)
    (simp_all add: initialFilterState_def nameConfig_def twentyFiveRecords_def)

text \<open>
  Claim C2. Direct page entry, by leaving the page input or by pressing Enter in it. The
  hook \<open>h\<close> is any value whose \<open>handlePageChange\<close> moves to a page within
  \<open>[1, totalPages]\<close> when asked to, and whose \<open>setPageInputValue\<close> stores the text (what
  the spec says of the hook). If the text parses to a number \<open>p\<close> with
  \<open>1 \<le> p \<le> totalPages\<close>, the current page becomes \<open>p\<close>. Otherwise (not a number,
  \<open>p < 1\<close> or \<open>p > totalPages\<close>) the state is left as it was but for the input buffer,
  which becomes the text of the current page number. The handlers are total and return
  a state only: there is no error to surface.
\<close>

theorem page_entry:
  assumes "\<forall>p. 1 \<le> p \<and> p \<le> totalPages h \<longrightarrow> currentPage (handlePageChange h p s) = p"
    and "\<forall>v. setPageInputValue h v s = s\<lparr>pageInputValue := v\<rparr>"
  shows
  "(\<forall>p. parseInt entered = Some p \<and> 1 \<le> p \<and> p \<le> totalPages h \<longrightarrow>
        currentPage (pageInputOnBlur h entered s) = p) \<and>
   (parseInt entered = None \<or> (\<exists>p. parseInt entered = Some p \<and> (p < 1 \<or> totalPages h < p)) \<longrightarrow>
        pageInputOnBlur h entered s = s\<lparr>pageInputValue := toString (currentPage s)\<rparr>) \<and>
   (\<forall>p. parseInt (pageInputValue s) = Some p \<and> 1 \<le> p \<and> p \<le> totalPages h \<longrightarrow>
        currentPage (pageInputOnKeyDown h ''Enter'' s) = p) \<and>
   (parseInt (pageInputValue s) = None \<or>
    (\<exists>p. parseInt (pageInputValue s) = Some p \<and> (p < 1 \<or> totalPages h < p)) \<longrightarrow>
        pageInputOnKeyDown h ''Enter'' s = s\<lparr>pageInputValue := toString (currentPage s)\<rparr>)"
  using assms
  by (auto simp: pageInputOnBlur_def pageInputOnKeyDown_def split: option.splits)

theorem page_entry_witness:
  "currentPage (pageInputOnBlur (useFiltering nameConfig twentyFiveRecords initialFilterState)
      ''2'' initialFilterState) = 2 \<and>
   pageInputOnBlur (useFiltering nameConfig twentyFiveRecords initialFilterState)
      ''4'' initialFilterState = initialFilterState\<lparr>pageInputValue := ''1''\<rparr> \<and>
   pageInputOnBlur (useFiltering nameConfig twentyFiveRecords initialFilterState)
      ''0'' initialFilterState = initialFilterState\<lparr>pageInputValue := ''1''\<rparr> \<and>
   pageInputOnBlur (useFiltering nameConfig twentyFiveRecords initialFilterState)
      ''abc'' initialFilterState = initialFilterState\<lparr>pageInputValue := ''1''\<rparr> \<and>
   currentPage (pageInputOnKeyDown (useFiltering nameConfig twentyFiveRecords initialFilterState)
      ''Enter'' (initialFilterState\<lparr>pageInputValue := ''3''\<rparr>)) = 3 \<and>
   pageInputOnKeyDown (useFiltering nameConfig twentyFiveRecords initialFilterState)
      ''Enter'' (initialFilterState\<lparr>pageInputValue := ''-1''\<rparr>) = initialFilterState"
proof -
  let ?h = "useFiltering nameConfig twentyFiveRecords initialFilterState"
  have tp: "totalPages ?h = 3"
    using length_filtered_twentyFive [of 1]
    by (simp add: useFiltering_simps initialFilterState_def totalPagesSpec_def)
  have hpc: "\<forall>p. 1 \<le> p \<and> p \<le> totalPages ?h \<longrightarrow> currentPage (handlePageChange ?h p s) = p" for s
    by (simp add: useFiltering_simps handlePageChangeSpec_def)
  have spv: "\<forall>v. setPageInputValue ?h v s = s\<lparr>pageInputValue := v\<rparr>" for s
    by (simp add: useFiltering_simps setPageInputValueSpec_def)
  have one: "toString (currentPage initialFilterState) = ''1''"
    by code_simp
  have i: "initialFilterState\<lparr>pageInputValue := ''1''\<rparr> = initialFilterState"
    by (simp add: initialFilterState_def)
  have p2: "parseInt ''2'' = Some 2" and p4: "parseInt ''4'' = Some 4"
    and p0: "parseInt ''0'' = Some 0" and pa: "parseInt ''abc'' = None"
    and p3: "parseInt ''3'' = Some 3" and pm: "parseInt ''-1'' = Some (- 1)"
    by (simp_all add: parseInt_def isWhiteSpace_def isDigitOf_def digitValue_def digitsValue_def)
  show ?thesis
    using page_entry [where s = initialFilterState and entered = "''2''", OF hpc spv]
      page_entry [where s = initialFilterState and entered = "''4''", OF hpc spv]
      page_entry [where s = initialFilterState and entered = "''0''", OF hpc spv]
      page_entry [where s = initialFilterState and entered = "''abc''", OF hpc spv]
      page_entry [where s = "initialFilterState\<lparr>pageInputValue := ''3''\<rparr>"
        and entered = "''x''", OF hpc spv]
      page_entry [where s = "initialFilterState\<lparr>pageInputValue := ''-1''\<rparr>"
        and entered = "''x''", OF hpc spv]
    by (simp add: tp p2 p4 p0 pa p3 pm one i)
qed

text \<open>
  Claim C10. After a successful delete of a displayed record, the page handlers keep the
  view on a page that exists. \<open>L\<close> is the list the hook paginates before the delete and
  \<open>L'\<close> the list after it, one record shorter; the hook \<open>h\<close> shows the slice of \<open>L\<close>
  for the current page, which is within the hook's page count, and its
  \<open>handlePageChange\<close> moves to a page within range when asked to. If the deleted record
  was the only one on the page and the page number is above 1, the handlers
  (\<open>handleConfirmDelete\<close> of the brokers page, \<open>confirmDelete\<close> of the posts page) go to
  the previous page. In every case the new current page is at least 1 and its slice of
  \<open>L'\<close> is not empty; when no record is left, the page is page 1.
\<close>

theorem delete_keeps_page_in_range:
  fixes L L' :: "'a list" and h :: "'a filteringHook"
  assumes P: "1 \<le> itemsPerPage fs"
    and c1: "1 \<le> currentPage fs"
    and c2: "currentPage fs \<le> totalPages h"
    and pg: "paginatedRecords h =
               take (itemsPerPage fs) (drop (nat (currentPage fs - 1) * itemsPerPage fs) L)"
    and hpc: "\<forall>p. 1 \<le> p \<and> p \<le> totalPages h \<longrightarrow> currentPage (handlePageChange h p fs) = p"
    and shown: "paginatedRecords h \<noteq> []"
    and del: "length L' + 1 = length L"
    and target: "truthy (brokerId dlg)" "post pdlg \<noteq> None"
    and fs': "fs' = fst (snd (handleConfirmDelete h True (fs, dlg))) \<or>
              fs' = fst (snd (confirmDelete h True (fs, pdlg)))"
  shows "(length (paginatedRecords h) = 1 \<and> currentPage fs > 1 \<longrightarrow>
            currentPage fs' = currentPage fs - 1) \<and>
         1 \<le> currentPage fs' \<and>
         (L' \<noteq> [] \<longrightarrow>
            take (itemsPerPage fs) (drop (nat (currentPage fs' - 1) * itemsPerPage fs) L') \<noteq> []) \<and>
         (L' = [] \<longrightarrow> currentPage fs' = 1)"
proof -
  let ?P = "itemsPerPage fs" and ?c = "currentPage fs"
  have fs_eq: "fs' = (if length (paginatedRecords h) = 1 \<and> ?c > 1
                      then handlePageChange h (?c - 1) fs else fs)"
    using fs' target by (auto simp: handleConfirmDelete_def confirmDelete_def Let_def)
  have len: "length (paginatedRecords h) = min ?P (length L - nat (?c - 1) * ?P)"
    by (simp add: pg min.commute)
  have pos: "nat (?c - 1) * ?P < length L"
    using shown by (simp add: pg)
  show ?thesis
  proof (cases "length (paginatedRecords h) = 1 \<and> ?c > 1")
    case True
    then have cur: "currentPage fs' = ?c - 1"
      using c2 hpc by (simp add: fs_eq)
    have n: "nat (?c - 1) * ?P \<le> length L'"
      using pos del by simp
    have "nat (?c - 1) = Suc (nat (?c - 2))"
      using True by linarith
    then have lt: "nat (?c - 2) * ?P < length L'"
      using n P by simp
    then have "L' \<noteq> []" by auto
    moreover have "nat (?c - 1 - 1) = nat (?c - 2)" by simp
    ultimately show ?thesis
      using True cur lt P by simp
  next
    case False
    then have cur: "currentPage fs' = ?c"
      by (auto simp: fs_eq)
    show ?thesis
    proof (cases "?c = 1")
      case True
      then show ?thesis using cur P by simp
    next
      case c: False
      with c1 False have "2 \<le> length (paginatedRecords h)"
        using shown by (cases "paginatedRecords h") (auto simp: Suc_le_eq)
      then have "2 \<le> length L - nat (?c - 1) * ?P"
        using len by simp
      then have "nat (?c - 1) * ?P + 2 \<le> length L"
        by linarith
      then have lt: "nat (?c - 1) * ?P < length L'"
        using del by simp
      then have "L' \<noteq> []" by auto
      then show ?thesis
        using cur False c1 lt P by simp
    qed
  qed
qed

theorem delete_keeps_page_in_range_witness:
  "paginatedRecords (useFiltering nameConfig [''a'', ''b'', ''c''] lastPageState) = [''c''] \<and>
   currentPage (fst (snd (handleConfirmDelete
      (useFiltering nameConfig [''a'', ''b'', ''c''] lastPageState) True
      (lastPageState, \<lparr>isOpen = True, brokerId = Some ''3'', brokerName = Some ''c''\<rparr>)))) = 1 \<and>
   currentPage (fst (snd (confirmDelete
      (useFiltering nameConfig [''a'', ''b'', ''c''] lastPageState) True
      (lastPageState, \<lparr>confirmIsOpen = True, post = Some ''c'', isDeleting = False\<rparr>)))) = 1 \<and>
   totalPages (useFiltering nameConfig [''a'', ''b''] (lastPageState\<lparr>currentPage := 1\<rparr>)) = 1 \<and>
   paginatedRecords (useFiltering nameConfig [''a'', ''b''] (lastPageState\<lparr>currentPage := 1\<rparr>))
     = [''a'', ''b'']"
proof -
  let ?h = "useFiltering nameConfig [''a'', ''b'', ''c''] lastPageState"
  let ?dlg = "\<lparr>isOpen = True, brokerId = Some ''3'', brokerName = Some ''c''\<rparr>"
  let ?pdlg = "\<lparr>confirmIsOpen = True, post = Some ''c'', isDeleting = False\<rparr>"
  let ?L = "[''a'', ''b'', ''c'']" and ?L' = "[''a'', ''b'']"
  have fl: "filteredAndSorted nameConfig lastPageState ?L = ?L"
    by code_simp
  have fl': "filteredAndSorted nameConfig (lastPageState\<lparr>currentPage := 1\<rparr>) ?L' = ?L'"
    by code_simp
  have P: "1 \<le> itemsPerPage lastPageState" and c1: "1 \<le> currentPage lastPageState"
    by (simp_all add: lastPageState_def initialFilterState_def)
  have tpv: "totalPages ?h = 2"
    unfolding useFiltering_simps fl by (simp add: totalPagesSpec_def lastPageState_def)
  have c2: "currentPage lastPageState \<le> totalPages ?h"
    by (simp add: tpv) (simp add: lastPageState_def)
  have pg: "paginatedRecords ?h =
      take (itemsPerPage lastPageState)
        (drop (nat (currentPage lastPageState - 1) * itemsPerPage lastPageState) ?L)"
    by (simp add: useFiltering_simps fl paginate_def)
  have pv: "paginatedRecords ?h = [''c'']"
    unfolding pg by (simp add: lastPageState_def)
  have hpc: "\<forall>p. 1 \<le> p \<and> p \<le> totalPages ?h \<longrightarrow>
               currentPage (handlePageChange ?h p lastPageState) = p"
    by (simp add: useFiltering_simps handlePageChangeSpec_def)
  have shown: "paginatedRecords ?h \<noteq> []" by (simp add: pv)
  have del: "length ?L' + 1 = length ?L" by simp
  have t1: "truthy (brokerId ?dlg)" by (simp add: truthy_def)
  have t2: "post ?pdlg \<noteq> None" by simp
  note inst = delete_keeps_page_in_range [where h = ?h and fs = lastPageState and L = ?L
      and L' = ?L' and dlg = ?dlg and pdlg = ?pdlg, OF P c1 c2 pg hpc shown del t1 t2]
  have a: "currentPage (fst (snd (handleConfirmDelete ?h True (lastPageState, ?dlg)))) = 1"
    using inst [of "fst (snd (handleConfirmDelete ?h True (lastPageState, ?dlg)))"] pv
    by (simp add: lastPageState_def)
  have b: "currentPage (fst (snd (confirmDelete ?h True (lastPageState, ?pdlg)))) = 1"
    using inst [of "fst (snd (confirmDelete ?h True (lastPageState, ?pdlg)))"] pv
    by (simp add: lastPageState_def)
  have c: "totalPages (useFiltering nameConfig ?L' (lastPageState\<lparr>currentPage := 1\<rparr>)) = 1"
    unfolding useFiltering_simps fl' by (simp add: totalPagesSpec_def lastPageState_def)
  have d: "paginatedRecords (useFiltering nameConfig ?L' (lastPageState\<lparr>currentPage := 1\<rparr>)) = ?L'"
    unfolding useFiltering_simps fl' by (simp add: paginate_def lastPageState_def)
  show ?thesis using pv a b c d by simp
qed

text \<open>
  Claim C1. For every record list and every page size of at least 1, the hook's page count
  is \<open>ceil(filteredCount / pageSize)\<close> with the minimum 1: it is at least 1 also when no
  record passes the filter, and it is the ceiling itself as soon as one does. The current
  page's slice has \<open>min pageSize (filteredCount - (currentPage - 1) * pageSize)\<close>
  records. In particular, with 25 filtered records and page size 10 there are 3 pages and
  page 3 has exactly 5 records.
\<close>

theorem totalPages_ceiling:
  assumes "1 \<le> itemsPerPage s"
  shows "totalPages (useFiltering cfg records s) =
          max 1 \<lceil>real (length (filteredRecords (useFiltering cfg records s)))
                  / real (itemsPerPage s)\<rceil> \<and>
     1 \<le> totalPages (useFiltering cfg records s) \<and>
     (1 \<le> length (filteredRecords (useFiltering cfg records s)) \<longrightarrow>
        totalPages (useFiltering cfg records s) =
          \<lceil>real (length (filteredRecords (useFiltering cfg records s)))
             / real (itemsPerPage s)\<rceil>) \<and>
     (length (filteredRecords (useFiltering cfg records s)) = 0 \<longrightarrow>
        totalPages (useFiltering cfg records s) = 1) \<and>
     length (paginatedRecords (useFiltering cfg records s)) =
        min (itemsPerPage s)
          (length (filteredRecords (useFiltering cfg records s))
             - nat (currentPage s - 1) * itemsPerPage s) \<and>
     (length (filteredRecords (useFiltering cfg records s)) = 25 \<and> itemsPerPage s = 10 \<and>
      currentPage s = 3 \<longrightarrow>
        totalPages (useFiltering cfg records s) = 3 \<and>
        length (paginatedRecords (useFiltering cfg records s)) = 5)"
proof -
  let ?r = "useFiltering cfg records s"
  let ?n = "length (filteredRecords ?r)"
  have pc: "totalPages ?r = totalPagesSpec ?n (itemsPerPage s)"
    by (simp add: useFiltering_simps)
  have pg: "paginatedRecords ?r = paginate (filteredRecords ?r) (currentPage s) (itemsPerPage s)"
    by (simp add: useFiltering_simps)
  have 0: "totalPages ?r = max 1 \<lceil>real ?n / real (itemsPerPage s)\<rceil>"
    by (simp add: pc totalPagesSpec_def)
  have 1: "1 \<le> totalPages ?r"
    by (simp add: pc totalPagesSpec_ge_1)
  have 2: "1 \<le> ?n \<longrightarrow> totalPages ?r = \<lceil>real ?n / real (itemsPerPage s)\<rceil>"
  proof
    assume "1 \<le> ?n"
    then have "0 < ?n" by linarith
    moreover have "0 < itemsPerPage s" using assms by simp
    ultimately show "totalPages ?r = \<lceil>real ?n / real (itemsPerPage s)\<rceil>"
      unfolding pc by (rule totalPagesSpec_eq_ceiling [rotated])
  qed
  have 3: "?n = 0 \<longrightarrow> totalPages ?r = 1"
    by (simp add: pc totalPagesSpec_def)
  have 4: "length (paginatedRecords ?r) =
        min (itemsPerPage s) (?n - nat (currentPage s - 1) * itemsPerPage s)"
    by (simp only: pg length_paginate)
  have 5: "?n = 25 \<and> itemsPerPage s = 10 \<and> currentPage s = 3 \<longrightarrow>
        totalPages ?r = 3 \<and> length (paginatedRecords ?r) = 5"
  proof
    assume h: "?n = 25 \<and> itemsPerPage s = 10 \<and> currentPage s = 3"
    have "totalPages ?r = 3" unfolding pc using h by (simp add: totalPagesSpec_def)
    moreover have "length (paginatedRecords ?r) = 5" unfolding 4 using h by simp
    ultimately show "totalPages ?r = 3 \<and> length (paginatedRecords ?r) = 5" by simp
  qed
  show ?thesis using 0 1 2 3 4 5 by blast
qed

theorem totalPages_ceiling_witness:
  "totalPages (useFiltering nameConfig twentyFiveRecords (initialFilterState\<lparr>currentPage := 3\<rparr>)) = 3 \<and>
   length (paginatedRecords
     (useFiltering nameConfig twentyFiveRecords (initialFilterState\<lparr>currentPage := 3\<rparr>))) = 5"
proof -
  let ?s = "initialFilterState\<lparr>currentPage := 3\<rparr>"
  have p: "1 \<le> itemsPerPage ?s" by (simp add: initialFilterState_def)
  have n: "length (filteredRecords (useFiltering nameConfig twentyFiveRecords ?s)) = 25"
    by (simp add: useFiltering_simps length_filtered_twentyFive)
  have s: "itemsPerPage ?s = 10 \<and> currentPage ?s = 3" by (simp add: initialFilterState_def)
  show ?thesis
    using totalPages_ceiling [OF p, of nameConfig twentyFiveRecords] n s by blast
qed



text \<open>
  Claim C4. The hook's filtered list holds only records of the input list, and each of
  them has a searched text field that contains the search term as a substring once both
  are put in lower case.
\<close>

theorem filtered_subset_matching:
  "set (filteredRecords (useFiltering cfg records s)) \<subseteq> set records \<and>
   (\<forall>r \<in> set (filteredRecords (useFiltering cfg records s)).
      \<exists>f \<in> set (searchFields cfg r). sublist (toLowerCase (searchTerm s)) (toLowerCase f))"
  by (auto simp: useFiltering_simps filteredAndSorted_def set_sortBy matchesSearch_def
      list_ex_iff includesStr_sublist)

theorem filtered_subset_matching_witness:
  "''Alpha Markets'' \<in> set (filteredRecords (useFiltering nameConfig [''Alpha Markets'', ''Beta FX'']
       (initialFilterState\<lparr>searchTerm := ''ALPHA''\<rparr>))) \<and>
   ''Beta FX'' \<notin> set (filteredRecords (useFiltering nameConfig [''Alpha Markets'', ''Beta FX'']
       (initialFilterState\<lparr>searchTerm := ''ALPHA''\<rparr>))) \<and>
   (\<exists>f \<in> set (searchFields nameConfig ''Alpha Markets'').
       sublist (toLowerCase ''ALPHA'') (toLowerCase f))"
proof -
  let ?s = "initialFilterState\<lparr>searchTerm := ''ALPHA''\<rparr>"
  let ?h = "useFiltering nameConfig [''Alpha Markets'', ''Beta FX''] ?s"
  have f: "filteredRecords ?h = [''Alpha Markets'']"
    by code_simp
  show ?thesis
    using filtered_subset_matching [of nameConfig "[''Alpha Markets'', ''Beta FX'']" ?s] f
    by simp
qed

text \<open>
  Claim C5. The sort handler, invoked with the column that is already selected, keeps
  the column and flips the direction; invoked with another column, it selects that column
  with the ascending direction.
\<close>

theorem handleSort_toggle:
  "(sortColumn s' = c \<longrightarrow>
      sortColumn (handleSort (useFiltering cfg records s) c s') = c \<and>
      sortDirection (handleSort (useFiltering cfg records s) c s') =
        (case sortDirection s' of Asc \<Rightarrow> Desc | Desc \<Rightarrow> Asc)) \<and>
   (sortColumn s' \<noteq> c' \<longrightarrow>
      sortColumn (handleSort (useFiltering cfg records s) c' s') = c' \<and>
      sortDirection (handleSort (useFiltering cfg records s) c' s') = Asc)"
  by (simp add: useFiltering_simps handleSortSpec_def)

theorem handleSort_toggle_witness:
  "sortColumn (handleSort (useFiltering nameConfig [] initialFilterState) ''name''
      initialFilterState) = ''name'' \<and>
   sortDirection (handleSort (useFiltering nameConfig [] initialFilterState) ''name''
      initialFilterState) = Asc \<and>
   sortColumn (handleSort (useFiltering nameConfig [] initialFilterState) ''name''
      (initialFilterState\<lparr>sortColumn := ''name'', sortDirection := Asc\<rparr>)) = ''name'' \<and>
   sortDirection (handleSort (useFiltering nameConfig [] initialFilterState) ''name''
      (initialFilterState\<lparr>sortColumn := ''name'', sortDirection := Asc\<rparr>)) = Desc"
  using handleSort_toggle [of initialFilterState "''created_at''" nameConfig "[]" initialFilterState "''name''"]
    handleSort_toggle [of "initialFilterState\<lparr>sortColumn := ''name'', sortDirection := Asc\<rparr>" "''name''"
       nameConfig "[]" initialFilterState "''x''"]
  by (simp add: initialFilterState_def)

end
